theory Spec2Isabelle
  imports Main "HOL-Library.Word" "HOL-Library.Monad_Syntax"
begin

section \<open>Strings and slices\<close>

text \<open>
  A Go string is a sequence of bytes, and \<open>len\<close> counts bytes; \<^typ>\<open>string\<close> is a list
  of 8-bit characters, so it is the same thing. A slice expression \<open>s[lo:hi]\<close> panics
  unless \<open>lo \<le> hi \<le> len(s)\<close>; the panic is the value \<open>None\<close>.
\<close>

definition slice :: "string \<Rightarrow> nat \<Rightarrow> nat \<Rightarrow> string option" where
  "slice s lo hi = (if lo \<le> hi \<and> hi \<le> length s then Some (take (hi - lo) (drop lo s)) else None)"

text \<open>The index expression \<open>s[i]\<close> panics unless \<open>i < len(s)\<close>.\<close>

definition at :: "string \<Rightarrow> nat \<Rightarrow> char option" where
  "at s i = (if i < length s then Some (s ! i) else None)"

section \<open>The whitespace normalizer\<close>

text \<open>
  The class \<open>\s\<close> of Go's regexp package is \<open>[\t\n\f\r ]\<close>: five ASCII bytes. None of them
  occurs inside a multi-byte UTF-8 sequence, so matching on bytes and on runes agree.
\<close>

definition is_space :: "char \<Rightarrow> bool" where
  "is_space c = (c = CHR 0x09 \<or> c = CHR 0x0A \<or> c = CHR 0x0C \<or> c = CHR 0x0D \<or> c = CHR 0x20)"

text \<open>
  \<open>reWhitespace.ReplaceAllString(s, repl)\<close> with \<open>reWhitespace = \s+\<close>: scanning from the
  left, every match is a maximal run of whitespace (the \<open>+\<close> is greedy), and matches do not
  overlap; each is replaced by \<open>repl\<close> and all other bytes are copied.
\<close>

function reWhitespace_ReplaceAllString :: "string \<Rightarrow> string \<Rightarrow> string" where
  "reWhitespace_ReplaceAllString [] repl = []"
| "reWhitespace_ReplaceAllString (c # cs) repl =
     (if is_space c then repl @ reWhitespace_ReplaceAllString (dropWhile is_space cs) repl
      else c # reWhitespace_ReplaceAllString cs repl)"
  by pat_completeness auto
termination
  by (relation "measure (\<lambda>(s, repl). length s)")
     (auto simp: le_imp_less_Suc length_dropWhile_le)

text \<open>
  \<open>CleanString\<close>: \<open>first\<close> and \<open>last\<close> are the two local variables of the source; the
  reads \<open>s[0]\<close> and \<open>s[last-1]\<close> and the final slice can panic in Go, so they are
  \<open>option\<close>-valued here.
\<close>

definition CleanString :: "string \<Rightarrow> string option" where
  "CleanString s0 =
     (let s = reWhitespace_ReplaceAllString s0 '' '';
          first = 0;
          last = length s
      in if last > 0 then
           do {
             c0 \<leftarrow> at s 0;
             if c0 = CHR '' '' \<and> last = 1 then Some []
             else do {
               let first = (if c0 = CHR '' '' then first + 1 else first);
               cl \<leftarrow> at s (last - 1);
               let last = (if cl = CHR '' '' then last - 1 else last);
               slice s first last
             }
           }
         else slice s first last)"

section \<open>Name objects\<close>

type_synonym uint16 = "16 word"

record Name =
  name_text :: string
  boSurname :: uint16
  eoSurname :: uint16

definition zero_Name :: Name where
  "zero_Name = \<lparr>name_text = [], boSurname = 0, eoSurname = 0\<rparr>"

record RelatedName =
  rn_Name :: Name
  relCode :: "char \<times> char \<times> char"

definition zero_RelatedName :: RelatedName where
  "zero_RelatedName = \<lparr>rn_Name = zero_Name, relCode = (CHR 0x00, CHR 0x00, CHR 0x00)\<rparr>"

datatype error =
    EmptyPartError int string string string
  | BadRelatorCode Name string
  | BadName string

text \<open>
  The constructors return a pair \<open>(Name, error)\<close>; a \<open>nil\<close> error is \<open>None\<close>. The outer
  \<open>option\<close> is the panic of a slice inside \<open>CleanString\<close>. The conversion \<open>uint16(n)\<close>
  of a Go \<open>int\<close> keeps the low 16 bits: \<open>of_nat n\<close>.
\<close>

definition NewName1 :: "string \<Rightarrow> (Name \<times> error option) option" where
  "NewName1 text = do {
     t \<leftarrow> CleanString text;
     if t = [] then Some (zero_Name, Some (EmptyPartError 1 text [] []))
     else Some (\<lparr>name_text = text, boSurname = 0, eoSurname = of_nat (length text)\<rparr>, None)
   }"

definition NewName2 :: "string \<Rightarrow> string \<Rightarrow> (Name \<times> error option) option" where
  "NewName2 forename surname = do {
     f \<leftarrow> CleanString forename;
     s \<leftarrow> CleanString surname;
     if f = [] \<or> s = [] then Some (zero_Name, Some (EmptyPartError 2 forename surname []))
     else let text = f @ '' '' @ s
          in Some (\<lparr>name_text = text, boSurname = of_nat (length f + 1),
                    eoSurname = of_nat (length text)\<rparr>, None)
   }"

definition NewName3 :: "string \<Rightarrow> string \<Rightarrow> string \<Rightarrow> (Name \<times> error option) option" where
  "NewName3 forename surname generation = do {
     f \<leftarrow> CleanString forename;
     s \<leftarrow> CleanString surname;
     g \<leftarrow> CleanString generation;
     if f = [] \<or> s = [] \<or> g = []
     then Some (zero_Name, Some (EmptyPartError 3 forename surname generation))
     else let text = f @ '' '' @ s
          in Some (\<lparr>name_text = text @ '' '' @ g, boSurname = of_nat (length f + 1),
                    eoSurname = of_nat (length text)\<rparr>, None)
   }"

subsection \<open>Accessors\<close>

definition Common :: "Name \<Rightarrow> string" where
  "Common n = name_text n"

definition FileAs :: "Name \<Rightarrow> string option" where
  "FileAs n =
     (if boSurname n = 0 then Some (name_text n)
      else do {
        sur \<leftarrow> slice (name_text n) (unat (boSurname n)) (unat (eoSurname n));
        fore \<leftarrow> slice (name_text n) 0 (unat (boSurname n - 1));
        let faName = sur @ '', '' @ fore;
        if eoSurname n < of_nat (length (name_text n)) then do {
          gen \<leftarrow> slice (name_text n) (unat (eoSurname n + 1)) (length (name_text n));
          Some (faName @ '' '' @ gen)
        } else Some faName
      })"

definition Surname :: "Name \<Rightarrow> string option" where
  "Surname n = slice (name_text n) (unat (boSurname n)) (unat (eoSurname n))"

definition Forename :: "Name \<Rightarrow> string option" where
  "Forename n =
     (if boSurname n = 0 then Some []
      else slice (name_text n) 0 (unat (boSurname n - 1)))"

definition Generation :: "Name \<Rightarrow> string option" where
  "Generation n =
     (if eoSurname n = of_nat (length (name_text n)) then Some []
      else slice (name_text n) (unat (eoSurname n + 1)) (length (name_text n)))"

definition NumParts :: "Name \<Rightarrow> int" where
  "NumParts n =
     (if boSurname n = 0 then (if name_text n = [] then 0 else 1)
      else if eoSurname n = of_nat (length (name_text n)) then 2
      else 3)"

definition String_Name :: "Name \<Rightarrow> string" where
  "String_Name n = name_text n"

section \<open>RelatedName objects\<close>

text \<open>
  \<open>reRelator = ^[a-z][a-z][a-z]$\<close>, compiled without flags: \<open>^\<close> and \<open>$\<close> match only at
  the two ends of the text, so the text matches iff it is exactly three bytes, each in
  \<open>a\<close>..\<open>z\<close>.
\<close>

definition is_lower :: "char \<Rightarrow> bool" where
  "is_lower c = (of_char (CHR ''a'') \<le> (of_char c :: nat) \<and> (of_char c :: nat) \<le> of_char (CHR ''z''))"

fun reRelator_MatchString :: "string \<Rightarrow> bool" where
  "reRelator_MatchString [a, b, c] = (is_lower a \<and> is_lower b \<and> is_lower c)"
| "reRelator_MatchString _ = False"

definition NewRelatedName :: "Name \<Rightarrow> string \<Rightarrow> (RelatedName \<times> error option) option" where
  "NewRelatedName n relatorCode =
     (if \<not> reRelator_MatchString relatorCode
      then Some (zero_RelatedName, Some (BadRelatorCode n relatorCode))
      else if NumParts n = 0
      then Some (zero_RelatedName, Some (BadName relatorCode))
      else do {
        c0 \<leftarrow> at relatorCode 0;
        c1 \<leftarrow> at relatorCode 1;
        c2 \<leftarrow> at relatorCode 2;
        Some (\<lparr>rn_Name = n, relCode = (c0, c1, c2)\<rparr>, None)
      })"

definition Relator :: "RelatedName \<Rightarrow> string" where
  "Relator rn = (case relCode rn of (b0, b1, b2) \<Rightarrow> [b0, b1, b2])"

definition String_RelatedName :: "RelatedName \<Rightarrow> string" where
  "String_RelatedName rn = name_text (rn_Name rn) @ '' ('' @ Relator rn @ '')''"

section \<open>Normalization as the specification words it\<close>

text \<open>
  The specification of the normalizer, in two stages: every maximal run of one or more
  whitespace characters becomes exactly one space (\<open>spec_collapse\<close>: a whitespace
  character followed by another one belongs to the same run and is dropped, the last one
  of a run becomes the space), then every leading and trailing space is removed
  (\<open>spec_trim\<close>). \<open>no_ws_run\<close>, \<open>text_invariant\<close> and \<open>normalized\<close> are the invariants
  of the stored text: \<open>text !~ /^\s/, !~ /\s$/, !~ /\s\s/\<close>, and, for the normalizer's
  own output, the only whitespace left is the space.
\<close>

fun spec_collapse :: "string \<Rightarrow> string" where
  "spec_collapse [] = []"
| "spec_collapse [c] = (if is_space c then '' '' else [c])"
| "spec_collapse (c # d # cs) =
     (if is_space c \<and> is_space d then spec_collapse (d # cs)
      else (if is_space c then CHR '' '' else c) # spec_collapse (d # cs))"

definition spec_trim :: "string \<Rightarrow> string" where
  "spec_trim s = rev (dropWhile (\<lambda>c. c = CHR '' '') (rev (dropWhile (\<lambda>c. c = CHR '' '') s)))"

definition normalize_spec :: "string \<Rightarrow> string" where
  "normalize_spec s = spec_trim (spec_collapse s)"

fun no_ws_run :: "string \<Rightarrow> bool" where
  "no_ws_run [] = True"
| "no_ws_run [c] = True"
| "no_ws_run (c # d # cs) = (\<not> (is_space c \<and> is_space d) \<and> no_ws_run (d # cs))"

definition text_invariant :: "string \<Rightarrow> bool" where
  "text_invariant t = ((t = [] \<or> (\<not> is_space (hd t) \<and> \<not> is_space (last t))) \<and> no_ws_run t)"

definition normalized :: "string \<Rightarrow> bool" where
  "normalized t = (text_invariant t \<and> (\<forall>c \<in> set t. is_space c \<longrightarrow> c = CHR '' ''))"

section \<open>Names the program can build\<close>

text \<open>
  The fields of a Name are unexported: outside the package a Name is the zero value or
  the first result of a successful constructor call. \<open>constructed\<close> is the latter.
\<close>

inductive constructed :: "Name \<Rightarrow> bool" where
  by_NewName1: "NewName1 text = Some (n, None) \<Longrightarrow> constructed n"
| by_NewName2: "NewName2 forename surname = Some (n, None) \<Longrightarrow> constructed n"
| by_NewName3: "NewName3 forename surname generation = Some (n, None) \<Longrightarrow> constructed n"

text \<open>The names of the package's test file, as the constructors build them.\<close>

definition Baen_Books :: Name where
  "Baen_Books = \<lparr>name_text = ''Baen Books'', boSurname = 0, eoSurname = 10\<rparr>"

definition Dave_F :: Name where
  "Dave_F = \<lparr>name_text = ''Dave Freer'', boSurname = 5, eoSurname = 10\<rparr>"

definition W_K_J :: Name where
  "W_K_J = \<lparr>name_text = ''William H. Keith Jr.'', boSurname = 11, eoSurname = 16\<rparr>"

definition Sarah :: Name where
  "Sarah = \<lparr>name_text = ''Sarah A. Hoyt'', boSurname = 9, eoSurname = 13\<rparr>"

definition SarahAut :: RelatedName where
  "SarahAut = \<lparr>rn_Name = Sarah, relCode = (CHR ''a'', CHR ''u'', CHR ''t'')\<rparr>"

section \<open>The normalizer meets its specification\<close>

lemma is_space_sp [simp]: "is_space (CHR '' '')"
  by (simp add: is_space_def)

lemma spec_collapse_space:
  "is_space c \<Longrightarrow> spec_collapse (c # cs) = CHR '' '' # spec_collapse (dropWhile is_space cs)"
proof (induction cs arbitrary: c)
  case Nil
  then show ?case by simp
next
  case (Cons d ds)
  then show ?case by (cases "is_space d") simp_all
qed

lemma spec_collapse_nonspace:
  "\<not> is_space c \<Longrightarrow> spec_collapse (c # cs) = c # spec_collapse cs"
  by (cases cs) simp_all

lemma ReplaceAllString_collapse: "reWhitespace_ReplaceAllString s '' '' = spec_collapse s"
proof (induction s "'' ''" rule: reWhitespace_ReplaceAllString.induct)
  case 1
  show ?case by simp
next
  case (2 c cs)
  then show ?case
    by (cases "is_space c") (simp_all add: spec_collapse_space spec_collapse_nonspace)
qed

lemma no_ws_run_Cons:
  "no_ws_run (c # cs) = ((cs = [] \<or> \<not> (is_space c \<and> is_space (hd cs))) \<and> no_ws_run cs)"
  by (cases cs) auto

lemma no_ws_run_append:
  "no_ws_run (a @ b) =
     (no_ws_run a \<and> no_ws_run b \<and> (a = [] \<or> b = [] \<or> \<not> (is_space (last a) \<and> is_space (hd b))))"
proof (induction a)
  case Nil
  show ?case by simp
next
  case (Cons c cs)
  show ?case
  proof (cases cs)
    case Nil
    then show ?thesis by (cases b) auto
  next
    case (Cons d ds)
    with Cons.IH show ?thesis by auto
  qed
qed

lemma set_spec_collapse: "x \<in> set (spec_collapse s) \<Longrightarrow> is_space x \<Longrightarrow> x = CHR '' ''"
  by (induction s rule: spec_collapse.induct) (auto split: if_splits)

lemma hd_spec_collapse:
  "s \<noteq> [] \<Longrightarrow> spec_collapse s \<noteq> [] \<and> is_space (hd (spec_collapse s)) = is_space (hd s)"
  by (induction s rule: spec_collapse.induct) auto

lemma no_ws_run_spec_collapse: "no_ws_run (spec_collapse s)"
proof (induction s rule: spec_collapse.induct)
  case 1
  show ?case by simp
next
  case (2 c)
  show ?case by simp
next
  case (3 c d cs)
  then show ?case
    using hd_spec_collapse [of "d # cs"]
    by (auto simp: no_ws_run_Cons)
qed

lemma no_ws_run_rev: "no_ws_run (rev u) = no_ws_run u"
  by (induction u) (auto simp: no_ws_run_append no_ws_run_Cons last_rev)

lemma no_ws_run_tl: "no_ws_run t \<Longrightarrow> no_ws_run (tl t)"
  by (cases t) (auto simp: no_ws_run_Cons)

lemma dropWhile_sp:
  "no_ws_run t \<Longrightarrow>
   dropWhile (\<lambda>c. c = CHR '' '') t = (if t \<noteq> [] \<and> hd t = CHR '' '' then tl t else t)"
  by (cases t; cases "tl t") auto

lemma spec_trim_squeezed:
  assumes "no_ws_run t"
  shows "spec_trim t =
    (let u = (if t \<noteq> [] \<and> hd t = CHR '' '' then tl t else t)
     in if u \<noteq> [] \<and> last u = CHR '' '' then butlast u else u)"
proof -
  define u where "u = (if t \<noteq> [] \<and> hd t = CHR '' '' then tl t else t)"
  have u: "no_ws_run u"
    using assms by (simp add: u_def no_ws_run_tl)
  have "dropWhile (\<lambda>c. c = CHR '' '') t = u"
    using assms by (simp add: dropWhile_sp u_def)
  moreover have "rev (dropWhile (\<lambda>c. c = CHR '' '') (rev u)) =
      (if u \<noteq> [] \<and> last u = CHR '' '' then butlast u else u)"
    using u by (simp add: dropWhile_sp no_ws_run_rev hd_rev butlast_rev [symmetric] del: butlast_rev)
  ultimately show ?thesis
    by (simp add: spec_trim_def u_def Let_def)
qed

lemma CleanString_eq: "CleanString s = Some (normalize_spec s)"
proof -
  define t where "t = spec_collapse s"
  have sq: "no_ws_run t"
    by (simp add: t_def no_ws_run_spec_collapse)
  have st: "spec_trim t =
    (let u = (if t \<noteq> [] \<and> hd t = CHR '' '' then tl t else t)
     in if u \<noteq> [] \<and> last u = CHR '' '' then butlast u else u)"
    by (rule spec_trim_squeezed [OF sq])
  have "CleanString s = Some (spec_trim t)"
  proof (cases t)
    case Nil
    then show ?thesis
      by (simp add: CleanString_def ReplaceAllString_collapse t_def [symmetric] slice_def
                    spec_trim_def)
  next
    case (Cons c cs)
    show ?thesis
    proof (cases "cs = []")
      case True
      with Cons show ?thesis
        unfolding st
        by (simp add: CleanString_def ReplaceAllString_collapse t_def [symmetric] at_def
                      slice_def)
    next
      case False
      then have "length cs \<ge> 1" by (cases cs) auto
      with Cons False show ?thesis
        unfolding st
        by (auto simp: CleanString_def ReplaceAllString_collapse t_def [symmetric] at_def
                       slice_def last_conv_nth butlast_conv_take drop_Suc Let_def)
    qed
  qed
  then show ?thesis
    by (simp add: normalize_spec_def t_def)
qed

lemma spec_collapse_id:
  "no_ws_run s \<Longrightarrow> \<forall>c \<in> set s. is_space c \<longrightarrow> c = CHR '' '' \<Longrightarrow> spec_collapse s = s"
  by (induction s rule: spec_collapse.induct) auto

lemma spec_collapse_all_space:
  "s \<noteq> [] \<Longrightarrow> \<forall>c \<in> set s. is_space c \<Longrightarrow> spec_collapse s = '' ''"
  by (induction s rule: spec_collapse.induct) auto

lemma spec_collapse_keeps:
  "c \<in> set s \<Longrightarrow> \<not> is_space c \<Longrightarrow> c \<in> set (spec_collapse s)"
  by (induction s rule: spec_collapse.induct) (auto split: if_splits)

lemma dropWhile_keeps: "x \<in> set xs \<Longrightarrow> \<not> P x \<Longrightarrow> x \<in> set (dropWhile P xs)"
  by (induction xs) auto

lemma spec_trim_keeps: "c \<in> set t \<Longrightarrow> c \<noteq> CHR '' '' \<Longrightarrow> c \<in> set (spec_trim t)"
  by (simp add: spec_trim_def dropWhile_keeps)

lemma normalize_spec_all_space: "\<forall>c \<in> set s. is_space c \<Longrightarrow> normalize_spec s = []"
  by (cases "s = []") (simp_all add: normalize_spec_def spec_trim_def spec_collapse_all_space)

lemma normalize_spec_empty_iff: "normalize_spec s = [] \<longleftrightarrow> (\<forall>c \<in> set s. is_space c)"
proof
  assume e: "normalize_spec s = []"
  show "\<forall>c \<in> set s. is_space c"
  proof (rule ccontr)
    assume "\<not> (\<forall>c \<in> set s. is_space c)"
    then obtain c where c: "c \<in> set s" "\<not> is_space c" by blast
    then have "c \<noteq> CHR '' ''" by auto
    with c have "c \<in> set (normalize_spec s)"
      by (simp add: normalize_spec_def spec_trim_keeps spec_collapse_keeps)
    with e show False by simp
  qed
next
  assume "\<forall>c \<in> set s. is_space c"
  then show "normalize_spec s = []" by (rule normalize_spec_all_space)
qed

lemma spec_trim_id:
  "t = [] \<or> (hd t \<noteq> CHR '' '' \<and> last t \<noteq> CHR '' '') \<Longrightarrow> spec_trim t = t"
proof (cases "t = []")
  case True
  then show ?thesis by (simp add: spec_trim_def)
next
  case False
  assume "t = [] \<or> (hd t \<noteq> CHR '' '' \<and> last t \<noteq> CHR '' '')"
  with False have h: "hd t \<noteq> CHR '' ''" and l: "last t \<noteq> CHR '' ''" by simp_all
  have 1: "dropWhile (\<lambda>c. c = CHR '' '') t = t"
    using False h by (cases t) simp_all
  have "hd (rev t) \<noteq> CHR '' ''" using False l by (simp add: hd_rev)
  then have 2: "dropWhile (\<lambda>c. c = CHR '' '') (rev t) = rev t"
    using False by (cases "rev t") simp_all
  show ?thesis by (simp add: spec_trim_def 1 2)
qed

lemma normalize_spec_normalized: "normalized s \<Longrightarrow> normalize_spec s = s"
proof -
  assume n: "normalized s"
  then have "spec_collapse s = s"
    by (simp add: normalized_def text_invariant_def spec_collapse_id)
  moreover have "spec_trim s = s"
    using n by (intro spec_trim_id) (auto simp: normalized_def text_invariant_def)
  ultimately show ?thesis by (simp add: normalize_spec_def)
qed

lemma no_ws_run_butlast: "no_ws_run t \<Longrightarrow> no_ws_run (butlast t)"
proof -
  assume "no_ws_run t"
  then have "no_ws_run (tl (rev t))" by (simp add: no_ws_run_tl no_ws_run_rev)
  then have "no_ws_run (rev (tl (rev t)))" by (simp only: no_ws_run_rev)
  then show ?thesis by (simp add: butlast_rev [symmetric] del: butlast_rev)
qed

lemma set_spec_trim: "set (spec_trim t) \<subseteq> set t"
  by (auto simp: spec_trim_def dest!: set_dropWhileD)

lemma spec_trim_ends:
  assumes "spec_trim t \<noteq> []"
  shows "hd (spec_trim t) \<noteq> CHR '' '' \<and> last (spec_trim t) \<noteq> CHR '' ''"
proof -
  let ?P = "\<lambda>c. c = CHR '' ''"
  define d where "d = dropWhile ?P t"
  define e where "e = dropWhile ?P (rev d)"
  have r: "spec_trim t = rev e" by (simp add: spec_trim_def d_def e_def)
  with assms have e: "e \<noteq> []" by simp
  then have "\<not> ?P (hd e)" unfolding e_def by (rule hd_dropWhile)
  then have l: "last (spec_trim t) \<noteq> CHR '' ''" using e by (simp add: r last_rev)
  have "rev d = takeWhile ?P (rev d) @ e" by (simp add: e_def)
  then have "d = rev e @ rev (takeWhile ?P (rev d))"
    by (metis rev_append rev_rev_ident)
  then have "hd d = hd (rev e)" using e by (metis hd_append2 rev_is_Nil_conv)
  moreover have "d \<noteq> []" using e e_def by auto
  then have "\<not> ?P (hd d)" unfolding d_def by (rule hd_dropWhile)
  ultimately show ?thesis using l by (simp add: r)
qed

lemma normalized_normalize_spec: "normalized (normalize_spec s)"
proof -
  define t where "t = spec_collapse s"
  have sq: "no_ws_run t" by (simp add: t_def no_ws_run_spec_collapse)
  have sp: "\<forall>c \<in> set t. is_space c \<longrightarrow> c = CHR '' ''"
    by (auto simp: t_def dest: set_spec_collapse)
  have sp': "\<forall>c \<in> set (spec_trim t). is_space c \<longrightarrow> c = CHR '' ''"
    using sp set_spec_trim [of t] by blast
  have run: "no_ws_run (spec_trim t)"
    using sq by (simp add: spec_trim_squeezed Let_def no_ws_run_tl no_ws_run_butlast)
  have ends: "spec_trim t = [] \<or> (\<not> is_space (hd (spec_trim t)) \<and> \<not> is_space (last (spec_trim t)))"
  proof (cases "spec_trim t = []")
    case True
    then show ?thesis by simp
  next
    case False
    then have "hd (spec_trim t) \<in> set (spec_trim t)" "last (spec_trim t) \<in> set (spec_trim t)"
      by simp_all
    with sp' spec_trim_ends [OF False] show ?thesis by blast
  qed
  show ?thesis
    using sp' run ends by (simp add: normalized_def text_invariant_def normalize_spec_def t_def)
qed

lemma normalize_spec_idem: "normalize_spec (normalize_spec s) = normalize_spec s"
  by (simp add: normalize_spec_normalized normalized_normalize_spec)

lemma no_ws_run_replicate: "\<not> is_space c \<Longrightarrow> no_ws_run (replicate k c)"
  by (induction k) (auto simp: no_ws_run_Cons)

lemma normalized_replicate: "\<not> is_space c \<Longrightarrow> normalized (replicate k c)"
  by (cases k) (auto simp: normalized_def text_invariant_def no_ws_run_replicate
      simp del: replicate_Suc)

lemma normalize_spec_example:
  "normalize_spec (''a     b'' @ [CHR 0x0A] @ ''c   '') = ''a b c''"
  by (simp add: normalize_spec_def spec_trim_def is_space_def)

text \<open>
  Claim C5. \<open>CleanString\<close> never panics and returns the normalization of its argument:
  every maximal whitespace run replaced by one space, leading and trailing space removed.
  A string of whitespace only (the empty string too) gives the empty string, and a
  normalized string is returned unchanged.
\<close>

theorem CleanString_total_normalizes:
  "CleanString s = Some (normalize_spec s) \<and>
   (list_all is_space s \<longrightarrow> CleanString s = Some []) \<and>
   (normalized s \<longrightarrow> CleanString s = Some s)"
  by (simp add: CleanString_eq normalize_spec_all_space normalize_spec_normalized list_all_iff)

theorem CleanString_total_normalizes_witness:
  "list_all is_space [CHR 0x0A, CHR '' '', CHR 0x09, CHR 0x0D] \<and>
   CleanString [CHR 0x0A, CHR '' '', CHR 0x09, CHR 0x0D] = Some [] \<and>
   normalized ''a b c'' \<and> CleanString ''a b c'' = Some ''a b c''"
proof -
  have ws: "list_all is_space [CHR 0x0A, CHR '' '', CHR 0x09, CHR 0x0D]"
    by (simp add: is_space_def)
  have nm: "normalized ''a b c''"
    by (simp add: is_space_def normalized_def text_invariant_def)
  have "CleanString [CHR 0x0A, CHR '' '', CHR 0x09, CHR 0x0D] = Some []"
    using CleanString_total_normalizes [of "[CHR 0x0A, CHR '' '', CHR 0x09, CHR 0x0D]"] ws
    by blast
  moreover have "CleanString ''a b c'' = Some ''a b c''"
    using CleanString_total_normalizes [of "''a b c''"] nm by blast
  ultimately show ?thesis using ws nm by blast
qed


section \<open>Constructors and accessors\<close>

lemma NewName1_eq:
  "NewName1 text = Some (if normalize_spec text = []
     then (zero_Name, Some (EmptyPartError 1 text [] []))
     else (\<lparr>name_text = text, boSurname = 0, eoSurname = of_nat (length text)\<rparr>, None))"
  by (simp add: NewName1_def CleanString_eq)

lemma NewName2_eq:
  "NewName2 forename surname = Some (if normalize_spec forename = [] \<or> normalize_spec surname = []
     then (zero_Name, Some (EmptyPartError 2 forename surname []))
     else (\<lparr>name_text = normalize_spec forename @ '' '' @ normalize_spec surname,
            boSurname = of_nat (length (normalize_spec forename) + 1),
            eoSurname = of_nat (length (normalize_spec forename @ '' '' @ normalize_spec surname))\<rparr>,
           None))"
  by (simp add: NewName2_def CleanString_eq)

lemma NewName3_eq:
  "NewName3 forename surname generation =
   Some (if normalize_spec forename = [] \<or> normalize_spec surname = [] \<or> normalize_spec generation = []
     then (zero_Name, Some (EmptyPartError 3 forename surname generation))
     else (\<lparr>name_text = (normalize_spec forename @ '' '' @ normalize_spec surname) @ '' '' @
                         normalize_spec generation,
            boSurname = of_nat (length (normalize_spec forename) + 1),
            eoSurname = of_nat (length (normalize_spec forename @ '' '' @ normalize_spec surname))\<rparr>,
           None))"
  by (simp add: NewName3_def CleanString_eq)

lemma u16_mod: "unat (of_nat k :: uint16) = k mod 65536"
  by (simp add: unat_of_nat)

lemma u16_unat: "k < 65536 \<Longrightarrow> unat (of_nat k :: uint16) = k"
  by (simp add: u16_mod)

lemma two_part_accessors:
  assumes tx: "name_text n = F @ '' '' @ S"
    and b: "boSurname n = of_nat b" "b = length F + 1"
    and e: "eoSurname n = of_nat e" "e = length (name_text n)"
    and short: "e < 65536"
  shows "FileAs n = Some (S @ '', '' @ F) \<and> Surname n = Some S \<and> Forename n = Some F \<and>
         Generation n = Some [] \<and> NumParts n = 2"
proof -
  have "b < 65536" using b e short tx by simp
  then have bo: "unat (boSurname n) = b" by (simp add: b(1) u16_unat)
  have eo: "unat (eoSurname n) = e" using short by (simp add: e(1) u16_unat)
  have bo0: "boSurname n \<noteq> 0" using bo b(2) by (metis Suc_eq_plus1 nat.simps(3) unat_0)
  then have bo1: "unat (boSurname n - 1) = b - 1" by (simp add: unat_minus_one bo)
  have eq: "eoSurname n = of_nat (length (name_text n))" using e by simp
  have "Surname n = Some S"
    by (simp add: Surname_def bo eo slice_def tx b(2) e(2))
  moreover have "Forename n = Some F"
    by (simp add: Forename_def bo0 bo1 slice_def tx b(2))
  moreover have "Generation n = Some []"
    by (simp add: Generation_def eq)
  moreover have "NumParts n = 2"
    by (simp add: NumParts_def bo0 eq)
  moreover have "FileAs n = Some (S @ '', '' @ F)"
  proof -
    have "\<not> eoSurname n < of_nat (length (name_text n))" using eq by simp
    then show ?thesis
      by (simp add: FileAs_def bo0 bo bo1 eo slice_def b(2) e(2)) (simp add: tx)
  qed
  ultimately show ?thesis by simp
qed

lemma three_part_accessors:
  assumes tx: "name_text n = (F @ '' '' @ S) @ '' '' @ G"
    and b: "boSurname n = of_nat b" "b = length F + 1"
    and e: "eoSurname n = of_nat e" "e = length (F @ '' '' @ S)"
    and short: "length (name_text n) < 65536"
  shows "FileAs n = Some (S @ '', '' @ F @ '' '' @ G) \<and> Surname n = Some S \<and>
         Forename n = Some F \<and> Generation n = Some G \<and> NumParts n = 3"
proof -
  let ?l = "length (name_text n)"
  have el: "e < ?l" using e tx by simp
  have "b < 65536" using b e short tx by simp
  then have bo: "unat (boSurname n) = b" by (simp add: b(1) u16_unat)
  have eo: "unat (eoSurname n) = e" using short el by (simp add: e(1) u16_unat)
  have len: "unat (of_nat ?l :: uint16) = ?l" using short by (rule u16_unat)
  have bo0: "boSurname n \<noteq> 0" using bo b(2) by (metis Suc_eq_plus1 nat.simps(3) unat_0)
  then have bo1: "unat (boSurname n - 1) = b - 1" by (simp add: unat_minus_one bo)
  have lt: "eoSurname n < of_nat ?l"
    using el by (simp only: word_less_nat_alt eo len)
  then have ne: "eoSurname n \<noteq> of_nat ?l" by simp
  have "unat (eoSurname n + 1) = (e + 1) mod 65536"
    by (simp add: unat_word_ariths eo)
  then have eo1: "unat (eoSurname n + 1) = e + 1" using el short by simp
  have "Surname n = Some S"
    by (simp add: Surname_def bo eo slice_def tx b(2) e(2))
  moreover have "Forename n = Some F"
    by (simp add: Forename_def bo0 bo1 slice_def tx b(2))
  moreover have "Generation n = Some G"
    using ne by (simp add: Generation_def eo1 slice_def e(2)) (simp add: tx)
  moreover have "NumParts n = 3"
    using ne by (simp add: NumParts_def bo0)
  moreover have "FileAs n = Some (S @ '', '' @ F @ '' '' @ G)"
    using lt by (simp add: FileAs_def bo0 bo bo1 eo eo1 slice_def b(2) e(2)) (simp add: tx)
  ultimately show ?thesis by simp
qed

lemma one_part_accessors:
  assumes b: "boSurname n = 0" and e: "eoSurname n = of_nat (length (name_text n))"
  shows "FileAs n = Some (name_text n) \<and> Forename n = Some [] \<and> Generation n = Some [] \<and>
         Surname n = Some (take (length (name_text n) mod 65536) (name_text n)) \<and>
         NumParts n = (if name_text n = [] then 0 else 1)"
proof -
  have "length (name_text n) mod 65536 \<le> length (name_text n)" by simp
  then show ?thesis
    by (simp add: FileAs_def Forename_def Generation_def Surname_def NumParts_def b e u16_mod
                  slice_def)
qed

lemma CleanString_replicate:
  "\<not> is_space c \<Longrightarrow> CleanString (replicate k c) = Some (replicate k c)"
  by (simp add: CleanString_eq normalize_spec_normalized normalized_replicate)

lemma normalize_spec_replicate:
  "\<not> is_space c \<Longrightarrow> normalize_spec (replicate k c) = replicate k c"
  by (simp add: normalize_spec_normalized normalized_replicate)

lemma normalize_spec_single: "\<not> is_space c \<Longrightarrow> normalize_spec [c] = [c]"
  using normalize_spec_replicate [of c 1] by simp

text \<open>
  Claim C1. The one-part constructor computes the normalized text \<open>t\<close>, tests it for
  emptiness, and then stores the raw argument and the raw argument's length: on the input
  of two spaces and an \<open>x\<close> the stored text is the raw three bytes and the surname ends
  at 3, where the normalized text is \<open>x\<close> of length 1.
\<close>

theorem NewName1_keeps_raw_text:
  "CleanString ''  x'' = Some ''x'' \<and>
   NewName1 ''  x'' = Some (\<lparr>name_text = ''  x'', boSurname = 0, eoSurname = 3\<rparr>, None)"
  by (simp add: NewName1_def CleanString_def is_space_def at_def slice_def)

text \<open>
  Claim C4. The one-part constructor is not whitespace tolerant: a raw argument and its
  normalized form give two different Names. (The two-part and three-part constructors
  are: see \<open>NewName2_whitespace_tolerant\<close> and \<open>NewName3_whitespace_tolerant\<close> below.)
\<close>

theorem NewName1_whitespace_changes_Name:
  "CleanString ''Baen  Books '' = Some ''Baen Books'' \<and>
   NewName1 ''Baen  Books '' =
     Some (\<lparr>name_text = ''Baen  Books '', boSurname = 0, eoSurname = 12\<rparr>, None) \<and>
   NewName1 ''Baen Books'' =
     Some (\<lparr>name_text = ''Baen Books'', boSurname = 0, eoSurname = 10\<rparr>, None)"
  by (simp add: NewName1_def CleanString_def is_space_def at_def slice_def)

lemma NewName2_whitespace_tolerant:
  "map_option fst (NewName2 forename surname) =
   map_option fst (NewName2 (normalize_spec forename) (normalize_spec surname))"
  by (simp add: NewName2_eq normalize_spec_idem)

lemma NewName3_whitespace_tolerant:
  "map_option fst (NewName3 forename surname generation) =
   map_option fst (NewName3 (normalize_spec forename) (normalize_spec surname)
                            (normalize_spec generation))"
  by (simp add: NewName3_eq normalize_spec_idem)

text \<open>
  Claim C2. The file-as form of a two-part Name is surname, comma, forename. The code
  breaks it: a forename of 65535 bytes makes \<open>uint16(len(f) + 1)\<close> wrap to 0 while the
  constructor reports no error; the Name has \<open>boSurname = 0\<close> with \<open>eoSurname = 1\<close> on a
  text of 65537 bytes, against the code's own invariant
  \<open>boSurname == 0 \<Rightarrow> eoSurname == len(text)\<close>, and \<open>FileAs\<close> returns the common form.
\<close>

theorem FileAs_long_forename_wraps:
  "CleanString (replicate 65535 (CHR ''a'')) = Some (replicate 65535 (CHR ''a'')) \<and>
   CleanString ''b'' = Some ''b'' \<and>
   NewName2 (replicate 65535 (CHR ''a'')) ''b'' =
     Some (\<lparr>name_text = replicate 65535 (CHR ''a'') @ '' b'', boSurname = 0, eoSurname = 1\<rparr>, None) \<and>
   FileAs \<lparr>name_text = replicate 65535 (CHR ''a'') @ '' b'', boSurname = 0, eoSurname = 1\<rparr> =
     Some (replicate 65535 (CHR ''a'') @ '' b'') \<and>
   replicate 65535 (CHR ''a'') @ '' b'' \<noteq> ''b'' @ '', '' @ replicate 65535 (CHR ''a'')"
proof -
  have a: "\<not> is_space (CHR ''a'')" and b: "\<not> is_space (CHR ''b'')"
    by (simp_all add: is_space_def)
  have 1: "CleanString (replicate 65535 (CHR ''a'')) = Some (replicate 65535 (CHR ''a''))"
    using a by (rule CleanString_replicate)
  have 2: "CleanString ''b'' = Some ''b''"
    using CleanString_replicate [OF b, of 1] by simp
  have 3: "NewName2 (replicate 65535 (CHR ''a'')) ''b'' =
     Some (\<lparr>name_text = replicate 65535 (CHR ''a'') @ '' b'', boSurname = 0, eoSurname = 1\<rparr>, None)"
    by (simp add: NewName2_def 1 2)
  have 4: "FileAs \<lparr>name_text = replicate 65535 (CHR ''a'') @ '' b'', boSurname = 0, eoSurname = 1\<rparr> =
     Some (replicate 65535 (CHR ''a'') @ '' b'')"
    by (simp add: FileAs_def)
  have "length (replicate 65535 (CHR ''a'') @ '' b'') \<noteq>
        length (''b'' @ '', '' @ replicate 65535 (CHR ''a''))"
    by simp
  then have 5: "replicate 65535 (CHR ''a'') @ '' b'' \<noteq> ''b'' @ '', '' @ replicate 65535 (CHR ''a'')"
    by metis
  show ?thesis using 1 2 3 4 5 by blast
qed

lemma NewName1_SomeD:
  assumes "NewName1 text = Some (n, None)"
  shows "normalize_spec text \<noteq> []"
    and "n = \<lparr>name_text = text, boSurname = 0, eoSurname = of_nat (length text)\<rparr>"
  using assms by (auto simp: NewName1_eq split: if_splits)

lemma NewName2_SomeD:
  assumes "NewName2 forename surname = Some (n, None)"
  shows "normalize_spec forename \<noteq> []" and "normalize_spec surname \<noteq> []"
    and "n = \<lparr>name_text = normalize_spec forename @ '' '' @ normalize_spec surname,
              boSurname = of_nat (length (normalize_spec forename) + 1),
              eoSurname = of_nat (length (normalize_spec forename @ '' '' @ normalize_spec surname))\<rparr>"
  using assms by (auto simp: NewName2_eq split: if_splits)

lemma NewName3_SomeD:
  assumes "NewName3 forename surname generation = Some (n, None)"
  shows "normalize_spec forename \<noteq> []" and "normalize_spec surname \<noteq> []"
    and "normalize_spec generation \<noteq> []"
    and "n = \<lparr>name_text = (normalize_spec forename @ '' '' @ normalize_spec surname) @ '' '' @
                          normalize_spec generation,
              boSurname = of_nat (length (normalize_spec forename) + 1),
              eoSurname = of_nat (length (normalize_spec forename @ '' '' @ normalize_spec surname))\<rparr>"
  using assms by (auto simp: NewName3_eq split: if_splits)

lemma NewName2_accessors:
  assumes "NewName2 forename surname = Some (n, None)" "length (name_text n) < 65536"
  shows "FileAs n = Some (normalize_spec surname @ '', '' @ normalize_spec forename) \<and>
         Surname n = Some (normalize_spec surname) \<and>
         Forename n = Some (normalize_spec forename) \<and>
         Generation n = Some [] \<and> NumParts n = 2"
proof -
  note n = NewName2_SomeD(3) [OF assms(1)]
  show ?thesis
  proof (rule two_part_accessors)
    show "name_text n = normalize_spec forename @ '' '' @ normalize_spec surname"
      by (simp add: n)
    show "boSurname n = of_nat (length (normalize_spec forename) + 1)"
      by (simp add: n)
    show "eoSurname n = of_nat (length (name_text n))"
      by (simp add: n)
    show "length (name_text n) < 65536" by (rule assms(2))
  qed simp_all
qed

lemma NewName3_accessors:
  assumes "NewName3 forename surname generation = Some (n, None)"
    "length (name_text n) < 65536"
  shows "FileAs n = Some (normalize_spec surname @ '', '' @ normalize_spec forename @ '' '' @
                          normalize_spec generation) \<and>
         Surname n = Some (normalize_spec surname) \<and>
         Forename n = Some (normalize_spec forename) \<and>
         Generation n = Some (normalize_spec generation) \<and> NumParts n = 3"
proof -
  note n = NewName3_SomeD(4) [OF assms(1)]
  show ?thesis
  proof (rule three_part_accessors)
    show "name_text n = (normalize_spec forename @ '' '' @ normalize_spec surname) @ '' '' @
                        normalize_spec generation"
      by (simp add: n)
    show "boSurname n = of_nat (length (normalize_spec forename) + 1)"
      by (simp add: n)
    show "eoSurname n = of_nat (length (normalize_spec forename @ '' '' @ normalize_spec surname))"
      by (simp add: n)
    show "length (name_text n) < 65536" by (rule assms(2))
  qed simp_all
qed

lemma NewName1_accessors:
  assumes "NewName1 text = Some (n, None)"
  shows "FileAs n = Some (name_text n) \<and> Forename n = Some [] \<and> Generation n = Some [] \<and>
         Surname n = Some (take (length (name_text n) mod 65536) (name_text n)) \<and>
         NumParts n = 1"
proof -
  note n = NewName1_SomeD(2) [OF assms]
  have "name_text n \<noteq> []"
    using NewName1_SomeD(1) [OF assms] n by (auto simp: normalize_spec_def spec_trim_def)
  moreover have "boSurname n = 0" "eoSurname n = of_nat (length (name_text n))"
    by (simp_all add: n)
  ultimately show ?thesis
    using one_part_accessors [of n] by simp
qed

text \<open>
  Where no offset wraps (stored text shorter than 65536 bytes), \<open>FileAs\<close> of a two-part
  or three-part Name is \<open>S, F\<close> (followed by a space and \<open>G\<close> for three parts), where
  \<open>F\<close>, \<open>S\<close> and \<open>G\<close> are the normalized arguments; for every one-part Name \<open>FileAs\<close>
  is the common form.
\<close>

lemma FileAs_forms:
  "(NewName2 forename surname = Some (n2, None) \<and> CleanString forename = Some F \<and>
    CleanString surname = Some S \<and> length (name_text n2) < 65536
      \<longrightarrow> FileAs n2 = Some (S @ '', '' @ F)) \<and>
   (NewName3 forename3 surname3 generation = Some (n3, None) \<and> CleanString forename3 = Some F3 \<and>
    CleanString surname3 = Some S3 \<and> CleanString generation = Some G \<and>
    length (name_text n3) < 65536
      \<longrightarrow> FileAs n3 = Some (S3 @ '', '' @ F3 @ '' '' @ G)) \<and>
   (NewName1 text = Some (n1, None) \<longrightarrow> FileAs n1 = Some (Common n1))"
proof (intro conjI impI)
  assume "NewName2 forename surname = Some (n2, None) \<and> CleanString forename = Some F \<and>
    CleanString surname = Some S \<and> length (name_text n2) < 65536"
  then show "FileAs n2 = Some (S @ '', '' @ F)"
    using NewName2_accessors [of forename surname n2] by (simp add: CleanString_eq)
next
  assume "NewName3 forename3 surname3 generation = Some (n3, None) \<and>
    CleanString forename3 = Some F3 \<and> CleanString surname3 = Some S3 \<and>
    CleanString generation = Some G \<and> length (name_text n3) < 65536"
  then show "FileAs n3 = Some (S3 @ '', '' @ F3 @ '' '' @ G)"
    using NewName3_accessors [of forename3 surname3 generation n3] by (simp add: CleanString_eq)
next
  assume "NewName1 text = Some (n1, None)"
  then show "FileAs n1 = Some (Common n1)"
    using NewName1_accessors [of "text" n1] by (simp add: Common_def)
qed

lemma FileAs_forms_example:
  "NewName2 ''Dave'' ''Freer'' =
     Some (\<lparr>name_text = ''Dave Freer'', boSurname = 5, eoSurname = 10\<rparr>, None) \<and>
   CleanString ''Dave'' = Some ''Dave'' \<and> CleanString ''Freer'' = Some ''Freer'' \<and>
   length (name_text \<lparr>name_text = ''Dave Freer'', boSurname = 5, eoSurname = 10\<rparr>) < 65536 \<and>
   FileAs \<lparr>name_text = ''Dave Freer'', boSurname = 5, eoSurname = 10\<rparr> = Some ''Freer, Dave'' \<and>
   NewName3 ''William H.  '' ''      Keith'' ''Jr.'' =
     Some (\<lparr>name_text = ''William H. Keith Jr.'', boSurname = 11, eoSurname = 16\<rparr>, None) \<and>
   CleanString ''William H.  '' = Some ''William H.'' \<and>
   CleanString ''      Keith'' = Some ''Keith'' \<and> CleanString ''Jr.'' = Some ''Jr.'' \<and>
   length (name_text \<lparr>name_text = ''William H. Keith Jr.'', boSurname = 11, eoSurname = 16\<rparr>)
     < 65536 \<and>
   FileAs \<lparr>name_text = ''William H. Keith Jr.'', boSurname = 11, eoSurname = 16\<rparr> =
     Some ''Keith, William H. Jr.'' \<and>
   NewName1 ''Baen Books'' =
     Some (\<lparr>name_text = ''Baen Books'', boSurname = 0, eoSurname = 10\<rparr>, None) \<and>
   FileAs \<lparr>name_text = ''Baen Books'', boSurname = 0, eoSurname = 10\<rparr> =
     Some (Common \<lparr>name_text = ''Baen Books'', boSurname = 0, eoSurname = 10\<rparr>)"
proof -
  have c: "CleanString ''Dave'' = Some ''Dave''" "CleanString ''Freer'' = Some ''Freer''"
    "CleanString ''William H.  '' = Some ''William H.''"
    "CleanString ''      Keith'' = Some ''Keith''" "CleanString ''Jr.'' = Some ''Jr.''"
    "CleanString ''Baen Books'' = Some ''Baen Books''"
    by (simp_all add: CleanString_def is_space_def at_def slice_def)
  have 2: "NewName2 ''Dave'' ''Freer'' =
     Some (\<lparr>name_text = ''Dave Freer'', boSurname = 5, eoSurname = 10\<rparr>, None)"
    by (simp add: NewName2_def c)
  have 3: "NewName3 ''William H.  '' ''      Keith'' ''Jr.'' =
     Some (\<lparr>name_text = ''William H. Keith Jr.'', boSurname = 11, eoSurname = 16\<rparr>, None)"
    by (simp add: NewName3_def c)
  have 1: "NewName1 ''Baen Books'' =
     Some (\<lparr>name_text = ''Baen Books'', boSurname = 0, eoSurname = 10\<rparr>, None)"
    by (simp add: NewName1_def c)
  show ?thesis
    using FileAs_forms [of "''Dave''" "''Freer''"
        "\<lparr>name_text = ''Dave Freer'', boSurname = 5, eoSurname = 10\<rparr>" "''Dave''" "''Freer''"
        "''William H.  ''" "''      Keith''" "''Jr.''"
        "\<lparr>name_text = ''William H. Keith Jr.'', boSurname = 11, eoSurname = 16\<rparr>"
        "''William H.''" "''Keith''" "''Jr.''" "''Baen Books''"
        "\<lparr>name_text = ''Baen Books'', boSurname = 0, eoSurname = 10\<rparr>"]
    by (simp add: c 1 2 3)
qed

section \<open>Invariants of constructed names\<close>

lemma text_invariant_join:
  assumes "text_invariant a" "text_invariant b" "a \<noteq> []" "b \<noteq> []"
  shows "text_invariant (a @ CHR '' '' # b)"
proof -
  have "no_ws_run (CHR '' '' # b)"
    using assms(2,4) by (simp add: text_invariant_def no_ws_run_Cons)
  then have "no_ws_run (a @ (CHR '' '' # b))"
    using assms(1,3) by (simp only: no_ws_run_append) (simp add: text_invariant_def)
  then show ?thesis
    using assms by (simp add: text_invariant_def)
qed

lemma text_invariant_normalize_spec: "text_invariant (normalize_spec s)"
  using normalized_normalize_spec [of s] by (simp add: normalized_def)

lemma NewName2_text_invariant:
  assumes "NewName2 forename surname = Some (n, None)"
  shows "text_invariant (name_text n)"
  using NewName2_SomeD [OF assms]
  by (simp add: text_invariant_join text_invariant_normalize_spec)

lemma NewName3_text_invariant:
  assumes "NewName3 forename surname generation = Some (n, None)"
  shows "text_invariant (name_text n)"
proof -
  note d = NewName3_SomeD [OF assms]
  have fs: "text_invariant (normalize_spec forename @ CHR '' '' # normalize_spec surname)"
    using d(1,2) by (simp add: text_invariant_join text_invariant_normalize_spec)
  have "text_invariant ((normalize_spec forename @ CHR '' '' # normalize_spec surname) @
      CHR '' '' # normalize_spec generation)"
    by (rule text_invariant_join [OF fs text_invariant_normalize_spec]) (simp_all add: d(3))
  then show ?thesis by (simp add: d(4))
qed

lemma constructed_offsets:
  assumes "constructed n" "length (name_text n) < 65536"
  shows "boSurname n \<le> eoSurname n \<and> unat (eoSurname n) \<le> length (name_text n)"
  using assms
proof (cases rule: constructed.cases)
  case (by_NewName1 t)
  then show ?thesis
    using NewName1_SomeD(2) [of t n] by (simp add: u16_mod)
next
  case (by_NewName2 f s)
  note d = NewName2_SomeD(3) [OF by_NewName2]
  let ?F = "normalize_spec f" and ?S = "normalize_spec s"
  have l: "length ?F + 1 + length ?S < 65536" using assms(2) by (simp add: d)
  have b: "unat (boSurname n) = length ?F + 1"
    using l u16_unat [of "length ?F + 1"] by (simp add: d)
  have e: "unat (eoSurname n) = length ?F + 1 + length ?S"
    using l u16_unat [of "length (?F @ '' '' @ ?S)"] by (simp add: d)
  show ?thesis
    by (simp only: word_le_nat_alt b e) (simp add: d)
next
  case (by_NewName3 f s g)
  note d = NewName3_SomeD(4) [OF by_NewName3]
  let ?F = "normalize_spec f" and ?S = "normalize_spec s"
  have l: "length ?F + 1 + length ?S < 65536" using assms(2) by (simp add: d)
  have b: "unat (boSurname n) = length ?F + 1"
    using l u16_unat [of "length ?F + 1"] by (simp add: d)
  have e: "unat (eoSurname n) = length ?F + 1 + length ?S"
    using l u16_unat [of "length (?F @ '' '' @ ?S)"] by (simp add: d)
  show ?thesis
    by (simp only: word_le_nat_alt b e) (simp add: d)
qed

text \<open>
  What the constructors do establish: the text of every Name built by the two-part or
  the three-part constructor has no leading or trailing whitespace and no run of two or
  more whitespace characters; and where no offset wraps (stored text shorter than 65536
  bytes) every constructed Name has \<open>0 \<le> boSurname \<le> eoSurname \<le> len(text)\<close>.
\<close>

lemma constructed_Name_invariants:
  "(NewName2 forename surname = Some (n2, None) \<longrightarrow> text_invariant (name_text n2)) \<and>
   (NewName3 forename3 surname3 generation = Some (n3, None) \<longrightarrow> text_invariant (name_text n3)) \<and>
   (constructed n \<and> length (name_text n) < 65536 \<longrightarrow>
      0 \<le> boSurname n \<and> boSurname n \<le> eoSurname n \<and> unat (eoSurname n) \<le> length (name_text n))"
  using NewName2_text_invariant NewName3_text_invariant constructed_offsets by simp

lemma NewName1_Baen_Books: "NewName1 ''Baen Books'' = Some (Baen_Books, None)"
  by (simp add: NewName1_def CleanString_def is_space_def at_def slice_def Baen_Books_def)

lemma NewName2_Dave_F: "NewName2 ''Dave'' ''Freer'' = Some (Dave_F, None)"
  by (simp add: NewName2_def CleanString_def is_space_def at_def slice_def Dave_F_def)

lemma NewName3_W_K_J: "NewName3 ''William H.  '' ''      Keith'' ''Jr.'' = Some (W_K_J, None)"
  by (simp add: NewName3_def CleanString_def is_space_def at_def slice_def W_K_J_def)

lemma example_accessors:
  "FileAs Dave_F = Some ''Freer, Dave''" "Surname Dave_F = Some ''Freer''"
  "Forename Dave_F = Some ''Dave''" "Generation Dave_F = Some []" "NumParts Dave_F = 2"
  "FileAs W_K_J = Some ''Keith, William H. Jr.''" "Surname W_K_J = Some ''Keith''"
  "Forename W_K_J = Some ''William H.''" "Generation W_K_J = Some ''Jr.''" "NumParts W_K_J = 3"
  "FileAs Baen_Books = Some ''Baen Books''" "Surname Baen_Books = Some ''Baen Books''"
  "Forename Baen_Books = Some []" "Generation Baen_Books = Some []" "NumParts Baen_Books = 1"
  "FileAs zero_Name = Some []" "Surname zero_Name = Some []"
  "Forename zero_Name = Some []" "Generation zero_Name = Some []" "NumParts zero_Name = 0"
  by (simp_all add: FileAs_def Surname_def Forename_def Generation_def NumParts_def slice_def
      Dave_F_def W_K_J_def Baen_Books_def zero_Name_def)

lemma constructed_Name_invariants_example:
  "NewName2 ''Dave'' ''Freer'' = Some (Dave_F, None) \<and> text_invariant (name_text Dave_F) \<and>
   NewName3 ''William H.  '' ''      Keith'' ''Jr.'' = Some (W_K_J, None) \<and>
   text_invariant (name_text W_K_J) \<and>
   constructed Dave_F \<and> length (name_text Dave_F) < 65536 \<and>
   0 \<le> boSurname Dave_F \<and> boSurname Dave_F \<le> eoSurname Dave_F \<and>
   unat (eoSurname Dave_F) \<le> length (name_text Dave_F)"
proof -
  have c: "constructed Dave_F"
    using NewName2_Dave_F by (rule by_NewName2)
  have l: "length (name_text Dave_F) < 65536"
    by (simp add: Dave_F_def)
  show ?thesis
    using constructed_Name_invariants [of "''Dave''" "''Freer''" Dave_F "''William H.  ''"
        "''      Keith''" "''Jr.''" W_K_J Dave_F]
      NewName2_Dave_F NewName3_W_K_J c l
    by blast
qed

text \<open>
  Claim C3. Every constructed Name satisfies the invariants the code states in its own
  comment: \<open>text !~ /^\s/, !~ /\s$/, !~ /\s\s/\<close> and
  \<open>0 <= boSurname <= eoSurname <= len(text)\<close>. The code breaks both: the one-part
  constructor stores its raw argument, leading whitespace included; and a surname of
  65535 bytes makes \<open>uint16(len(text))\<close> wrap to 1, below the surname's start offset 2,
  while the constructor reports no error.
\<close>

theorem constructed_Name_breaks_invariants:
  "NewName1 ''  x'' = Some (\<lparr>name_text = ''  x'', boSurname = 0, eoSurname = 3\<rparr>, None) \<and>
   \<not> text_invariant (name_text \<lparr>name_text = ''  x'', boSurname = 0, eoSurname = 3\<rparr>) \<and>
   NewName3 ''a'' (replicate 65535 (CHR ''b'')) ''c'' =
     Some (\<lparr>name_text = ''a '' @ replicate 65535 (CHR ''b'') @ '' c'',
            boSurname = 2, eoSurname = 1\<rparr>, None) \<and>
   \<not> boSurname \<lparr>name_text = ''a '' @ replicate 65535 (CHR ''b'') @ '' c'',
                  boSurname = 2, eoSurname = 1\<rparr>
     \<le> eoSurname \<lparr>name_text = ''a '' @ replicate 65535 (CHR ''b'') @ '' c'',
                    boSurname = 2, eoSurname = 1\<rparr>"
proof -
  have a: "\<not> is_space (CHR ''a'')" and b: "\<not> is_space (CHR ''b'')"
    and c: "\<not> is_space (CHR ''c'')"
    by (simp_all add: is_space_def)
  have 1: "CleanString ''a'' = Some ''a''" "CleanString ''c'' = Some ''c''"
    using CleanString_replicate [OF a, of 1] CleanString_replicate [OF c, of 1] by simp_all
  have 2: "CleanString (replicate 65535 (CHR ''b'')) = Some (replicate 65535 (CHR ''b''))"
    using b by (rule CleanString_replicate)
  have 3: "NewName3 ''a'' (replicate 65535 (CHR ''b'')) ''c'' =
     Some (\<lparr>name_text = ''a '' @ replicate 65535 (CHR ''b'') @ '' c'',
            boSurname = 2, eoSurname = 1\<rparr>, None)"
    by (simp add: NewName3_def 1 2)
  have 4: "NewName1 ''  x'' = Some (\<lparr>name_text = ''  x'', boSurname = 0, eoSurname = 3\<rparr>, None)"
    by (simp add: NewName1_def CleanString_def is_space_def at_def slice_def)
  have 5: "\<not> text_invariant (name_text \<lparr>name_text = ''  x'', boSurname = 0, eoSurname = 3\<rparr>)"
    by (simp add: text_invariant_def is_space_def)
  show ?thesis using 3 4 5 by (simp add: word_le_nat_alt)
qed

section \<open>Part count and totality of the accessors\<close>

lemma constructed_text_nonempty: "constructed n \<Longrightarrow> name_text n \<noteq> []"
proof (induction rule: constructed.induct)
  case (by_NewName1 t n)
  then show ?case
    using NewName1_SomeD [of t n] by (auto simp: normalize_spec_def spec_trim_def)
next
  case (by_NewName2 f s n)
  then show ?case using NewName2_SomeD(3) [of f s n] by simp
next
  case (by_NewName3 f s g n)
  then show ?case using NewName3_SomeD(4) [of f s g n] by simp
qed

lemma NumParts_0_iff: "NumParts n = 0 \<longleftrightarrow> boSurname n = 0 \<and> name_text n = []"
  by (simp add: NumParts_def)

text \<open>
  Where no offset wraps (stored text shorter than 65536 bytes), \<open>NumParts\<close> is the arity
  of the constructor; it is 1 for every one-part Name at any length; and among the zero
  value and the constructed Names, it is 0 for the zero value only.
\<close>

lemma NumParts_arity:
  "(NewName1 text = Some (n1, None) \<longrightarrow> NumParts n1 = 1) \<and>
   (NewName2 forename surname = Some (n2, None) \<and> length (name_text n2) < 65536
      \<longrightarrow> NumParts n2 = 2) \<and>
   (NewName3 forename3 surname3 generation = Some (n3, None) \<and> length (name_text n3) < 65536
      \<longrightarrow> NumParts n3 = 3) \<and>
   (n = zero_Name \<or> constructed n \<longrightarrow> (NumParts n = 0 \<longleftrightarrow> n = zero_Name))"
proof (intro conjI impI)
  assume "NewName1 text = Some (n1, None)"
  then show "NumParts n1 = 1" using NewName1_accessors by blast
next
  assume "NewName2 forename surname = Some (n2, None) \<and> length (name_text n2) < 65536"
  then show "NumParts n2 = 2" using NewName2_accessors by blast
next
  assume "NewName3 forename3 surname3 generation = Some (n3, None) \<and>
    length (name_text n3) < 65536"
  then show "NumParts n3 = 3" using NewName3_accessors by blast
next
  assume "n = zero_Name \<or> constructed n"
  then show "NumParts n = 0 \<longleftrightarrow> n = zero_Name"
  proof
    assume "n = zero_Name"
    then show ?thesis by (simp add: NumParts_def zero_Name_def)
  next
    assume c: "constructed n"
    then have "name_text n \<noteq> []" by (rule constructed_text_nonempty)
    then show ?thesis by (auto simp: NumParts_0_iff zero_Name_def)
  qed
qed

lemma NumParts_arity_example:
  "NewName1 ''Baen Books'' = Some (Baen_Books, None) \<and> NumParts Baen_Books = 1 \<and>
   NewName2 ''Dave'' ''Freer'' = Some (Dave_F, None) \<and> length (name_text Dave_F) < 65536 \<and>
   NumParts Dave_F = 2 \<and>
   NewName3 ''William H.  '' ''      Keith'' ''Jr.'' = Some (W_K_J, None) \<and>
   length (name_text W_K_J) < 65536 \<and> NumParts W_K_J = 3 \<and>
   constructed Dave_F \<and> NumParts Dave_F \<noteq> 0 \<and> Dave_F \<noteq> zero_Name"
proof -
  have c: "constructed Dave_F"
    using NewName2_Dave_F by (rule by_NewName2)
  have l: "length (name_text Dave_F) < 65536" "length (name_text W_K_J) < 65536"
    by (simp_all add: Dave_F_def W_K_J_def)
  show ?thesis
    using NumParts_arity [of "''Baen Books''" Baen_Books "''Dave''" "''Freer''" Dave_F
        "''William H.  ''" "''      Keith''" "''Jr.''" W_K_J Dave_F]
      NewName1_Baen_Books NewName2_Dave_F NewName3_W_K_J c l example_accessors(5)
    by simp
qed

text \<open>
  Claim C8. The part count is the arity of the constructor. The code breaks it: with a
  generation of 65535 bytes the three-part constructor reports no error and stores
  \<open>boSurname = 2\<close>, \<open>eoSurname = 3\<close> on a text of 65539 bytes (a generational Name by the
  code's own comment), but \<open>NumParts\<close> compares \<open>eoSurname\<close> with \<open>uint16(len(n.text))\<close>,
  which is 3 too, and returns 2.
\<close>

theorem NumParts_long_generation_wraps:
  "NewName3 ''a'' ''b'' (replicate 65535 (CHR ''c'')) =
     Some (\<lparr>name_text = ''a b '' @ replicate 65535 (CHR ''c''),
            boSurname = 2, eoSurname = 3\<rparr>, None) \<and>
   NumParts \<lparr>name_text = ''a b '' @ replicate 65535 (CHR ''c''),
             boSurname = 2, eoSurname = 3\<rparr> = 2"
proof -
  have a: "\<not> is_space (CHR ''a'')" and b: "\<not> is_space (CHR ''b'')"
    and c: "\<not> is_space (CHR ''c'')"
    by (simp_all add: is_space_def)
  have 1: "CleanString ''a'' = Some ''a''" "CleanString ''b'' = Some ''b''"
    using CleanString_replicate [OF a, of 1] CleanString_replicate [OF b, of 1] by simp_all
  have 2: "CleanString (replicate 65535 (CHR ''c'')) = Some (replicate 65535 (CHR ''c''))"
    using c by (rule CleanString_replicate)
  have 3: "NewName3 ''a'' ''b'' (replicate 65535 (CHR ''c'')) =
     Some (\<lparr>name_text = ''a b '' @ replicate 65535 (CHR ''c''),
            boSurname = 2, eoSurname = 3\<rparr>, None)"
    by (simp add: NewName3_def 1 2)
  have 4: "NumParts \<lparr>name_text = ''a b '' @ replicate 65535 (CHR ''c''),
             boSurname = 2, eoSurname = 3\<rparr> = 2"
    by (simp add: NumParts_def)
  show ?thesis using 3 4 by simp
qed

lemma zero_Name_accessors:
  "FileAs zero_Name = Some [] \<and> Surname zero_Name = Some [] \<and> Forename zero_Name = Some [] \<and>
   Generation zero_Name = Some []"
  by (simp add: example_accessors)

text \<open>
  Where no offset wraps (stored text shorter than 65536 bytes), and on the zero value, the
  four accessors that slice the text (\<open>FileAs\<close>, \<open>Surname\<close>, \<open>Forename\<close>, \<open>Generation\<close>)
  return a value. \<open>Common\<close>, \<open>NumParts\<close> and \<open>String\<close> contain no slice or index
  expression and are total as they stand.
\<close>

lemma accessors_total:
  "(n = zero_Name \<or> constructed n) \<and> length (name_text n) < 65536 \<longrightarrow>
     FileAs n \<noteq> None \<and> Surname n \<noteq> None \<and> Forename n \<noteq> None \<and> Generation n \<noteq> None"
proof (intro impI, elim conjE disjE)
  assume "n = zero_Name"
  then show "FileAs n \<noteq> None \<and> Surname n \<noteq> None \<and> Forename n \<noteq> None \<and> Generation n \<noteq> None"
    using zero_Name_accessors by simp
next
  assume c: "constructed n" and l: "length (name_text n) < 65536"
  from c show "FileAs n \<noteq> None \<and> Surname n \<noteq> None \<and> Forename n \<noteq> None \<and> Generation n \<noteq> None"
  proof (cases rule: constructed.cases)
    case (by_NewName1 t)
    then show ?thesis using NewName1_accessors [of t n] by simp
  next
    case (by_NewName2 f s)
    then show ?thesis using NewName2_accessors [of f s n] l by simp
  next
    case (by_NewName3 f s g)
    then show ?thesis using NewName3_accessors [of f s g n] l by simp
  qed
qed

lemma accessors_total_example:
  "constructed W_K_J \<and> length (name_text W_K_J) < 65536 \<and>
   FileAs W_K_J \<noteq> None \<and> Surname W_K_J \<noteq> None \<and> Forename W_K_J \<noteq> None \<and>
   Generation W_K_J \<noteq> None \<and>
   length (name_text zero_Name) < 65536 \<and>
   FileAs zero_Name \<noteq> None \<and> Surname zero_Name \<noteq> None \<and> Forename zero_Name \<noteq> None \<and>
   Generation zero_Name \<noteq> None"
proof -
  have c: "constructed W_K_J"
    using NewName3_W_K_J by (rule by_NewName3)
  have l: "length (name_text W_K_J) < 65536" "length (name_text zero_Name) < 65536"
    by (simp_all add: W_K_J_def zero_Name_def)
  show ?thesis
    using accessors_total [of W_K_J] accessors_total [of zero_Name] c l by blast
qed

text \<open>
  Claim C9. No accessor can fail on a constructed Name. The code breaks it: with a
  surname of 65535 bytes the two-part constructor reports no error, the text is 65537
  bytes long and \<open>eoSurname\<close> wraps to 1, below \<open>boSurname = 2\<close>; the slice
  \<open>n.text[2:1]\<close> of \<open>Surname\<close> and \<open>FileAs\<close> panics.
\<close>

theorem Surname_long_surname_panics:
  "NewName2 ''a'' (replicate 65535 (CHR ''b'')) =
     Some (\<lparr>name_text = ''a '' @ replicate 65535 (CHR ''b''), boSurname = 2, eoSurname = 1\<rparr>,
           None) \<and>
   Surname \<lparr>name_text = ''a '' @ replicate 65535 (CHR ''b''), boSurname = 2, eoSurname = 1\<rparr>
     = None \<and>
   FileAs \<lparr>name_text = ''a '' @ replicate 65535 (CHR ''b''), boSurname = 2, eoSurname = 1\<rparr>
     = None"
proof -
  have a: "\<not> is_space (CHR ''a'')" and b: "\<not> is_space (CHR ''b'')"
    by (simp_all add: is_space_def)
  have 1: "CleanString ''a'' = Some ''a''"
    using CleanString_replicate [OF a, of 1] by simp
  have 2: "CleanString (replicate 65535 (CHR ''b'')) = Some (replicate 65535 (CHR ''b''))"
    using b by (rule CleanString_replicate)
  have 3: "NewName2 ''a'' (replicate 65535 (CHR ''b'')) =
     Some (\<lparr>name_text = ''a '' @ replicate 65535 (CHR ''b''), boSurname = 2, eoSurname = 1\<rparr>,
           None)"
    by (simp add: NewName2_def 1 2)
  have 4: "Surname \<lparr>name_text = ''a '' @ replicate 65535 (CHR ''b''), boSurname = 2,
      eoSurname = 1\<rparr> = None"
    by (simp add: Surname_def slice_def)
  have 5: "FileAs \<lparr>name_text = ''a '' @ replicate 65535 (CHR ''b''), boSurname = 2,
      eoSurname = 1\<rparr> = None"
    by (simp add: FileAs_def slice_def)
  show ?thesis using 3 4 5 by simp
qed

section \<open>Failures of the constructors, related names\<close>

lemma NewName2_Sarah:
  "NewName2 (''Sarah '' @ [CHR 0x09, CHR 0x09, CHR 0x09] @ '' A.  '') ''Hoyt   '' = Some (Sarah, None)"
  by (simp add: NewName2_def CleanString_def is_space_def at_def slice_def Sarah_def)

text \<open>
  Claim C6. Each constructor fails exactly when one of its arguments normalizes to the
  empty string: then it returns the zero Name and an \<open>EmptyPartError\<close> holding the arity
  and the raw arguments (empty strings for the arguments the constructor does not have);
  otherwise it returns a Name and no error.
\<close>

theorem constructors_fail_iff_empty_part:
  "(CleanString text = Some [] \<longrightarrow>
      NewName1 text = Some (zero_Name, Some (EmptyPartError 1 text [] []))) \<and>
   (CleanString text \<noteq> Some [] \<longrightarrow> (\<exists>n. NewName1 text = Some (n, None))) \<and>
   (CleanString forename = Some [] \<or> CleanString surname = Some [] \<longrightarrow>
      NewName2 forename surname = Some (zero_Name, Some (EmptyPartError 2 forename surname []))) \<and>
   (CleanString forename \<noteq> Some [] \<and> CleanString surname \<noteq> Some [] \<longrightarrow>
      (\<exists>n. NewName2 forename surname = Some (n, None))) \<and>
   (CleanString forename3 = Some [] \<or> CleanString surname3 = Some [] \<or>
    CleanString generation = Some [] \<longrightarrow>
      NewName3 forename3 surname3 generation =
        Some (zero_Name, Some (EmptyPartError 3 forename3 surname3 generation))) \<and>
   (CleanString forename3 \<noteq> Some [] \<and> CleanString surname3 \<noteq> Some [] \<and>
    CleanString generation \<noteq> Some [] \<longrightarrow>
      (\<exists>n. NewName3 forename3 surname3 generation = Some (n, None)))"
  by (simp add: NewName1_eq NewName2_eq NewName3_eq CleanString_eq)

theorem constructors_fail_iff_empty_part_witness:
  "CleanString [CHR '' '', CHR 0x09, CHR '' ''] = Some [] \<and>
   NewName1 [CHR '' '', CHR 0x09, CHR '' ''] =
     Some (zero_Name, Some (EmptyPartError 1 [CHR '' '', CHR 0x09, CHR '' ''] [] [])) \<and>
   CleanString [] = Some [] \<and>
   NewName2 [] ''Smith'' = Some (zero_Name, Some (EmptyPartError 2 [] ''Smith'' [])) \<and>
   CleanString '' '' = Some [] \<and>
   NewName3 ''William'' ''Keith'' '' '' =
     Some (zero_Name, Some (EmptyPartError 3 ''William'' ''Keith'' '' '')) \<and>
   CleanString ''Baen Books'' \<noteq> Some [] \<and> NewName1 ''Baen Books'' = Some (Baen_Books, None) \<and>
   CleanString ''Dave'' \<noteq> Some [] \<and> CleanString ''Freer'' \<noteq> Some [] \<and>
   NewName2 ''Dave'' ''Freer'' = Some (Dave_F, None) \<and>
   CleanString ''William H.  '' \<noteq> Some [] \<and> CleanString ''      Keith'' \<noteq> Some [] \<and>
   CleanString ''Jr.'' \<noteq> Some [] \<and>
   NewName3 ''William H.  '' ''      Keith'' ''Jr.'' = Some (W_K_J, None)"
proof -
  have c: "CleanString [CHR '' '', CHR 0x09, CHR '' ''] = Some []" "CleanString [] = Some []"
    "CleanString '' '' = Some []" "CleanString ''Baen Books'' \<noteq> Some []"
    "CleanString ''Dave'' \<noteq> Some []" "CleanString ''Freer'' \<noteq> Some []"
    "CleanString ''William H.  '' \<noteq> Some []" "CleanString ''      Keith'' \<noteq> Some []"
    "CleanString ''Jr.'' \<noteq> Some []"
    by (simp_all add: CleanString_def is_space_def at_def slice_def)
  show ?thesis
    using constructors_fail_iff_empty_part [of "[CHR '' '', CHR 0x09, CHR '' '']" "[]" "''Smith''"
        "''William''" "''Keith''" "'' ''"]
      c NewName1_Baen_Books NewName2_Dave_F NewName3_W_K_J
    by simp
qed

lemma reRelator_MatchString_iff:
  "reRelator_MatchString code \<longleftrightarrow> length code = 3 \<and> list_all is_lower code"
  by (cases code rule: reRelator_MatchString.cases) auto

text \<open>
  Claim C7. \<open>NewRelatedName\<close> first checks the code: unless it is exactly three bytes in
  \<open>a\<close>..\<open>z\<close> the result is \<open>BadRelatorCode\<close> with the Name and the code, whatever the Name
  is. With a good code the zero Name gives \<open>BadName\<close> with the code, and a constructed Name
  gives a RelatedName that embeds it, whose \<open>Relator\<close> is the code and whose \<open>String\<close> is
  the common form, a space, and the code in parentheses.
\<close>

theorem NewRelatedName_checks:
  "(\<not> (length code = 3 \<and> list_all is_lower code) \<longrightarrow>
      NewRelatedName n code = Some (zero_RelatedName, Some (BadRelatorCode n code))) \<and>
   (length code = 3 \<and> list_all is_lower code \<and> n = zero_Name \<longrightarrow>
      NewRelatedName n code = Some (zero_RelatedName, Some (BadName code))) \<and>
   (length code = 3 \<and> list_all is_lower code \<and> constructed n \<longrightarrow>
      (\<exists>rn. NewRelatedName n code = Some (rn, None) \<and> rn_Name rn = n \<and> Relator rn = code \<and>
            String_RelatedName rn = Common n @ '' ('' @ code @ '')''))"
proof (intro conjI impI)
  assume "\<not> (length code = 3 \<and> list_all is_lower code)"
  then show "NewRelatedName n code = Some (zero_RelatedName, Some (BadRelatorCode n code))"
    by (simp add: NewRelatedName_def reRelator_MatchString_iff)
next
  assume "length code = 3 \<and> list_all is_lower code \<and> n = zero_Name"
  then show "NewRelatedName n code = Some (zero_RelatedName, Some (BadName code))"
    by (simp add: NewRelatedName_def reRelator_MatchString_iff NumParts_def zero_Name_def)
next
  assume a: "length code = 3 \<and> list_all is_lower code \<and> constructed n"
  then have np: "NumParts n \<noteq> 0"
    using constructed_text_nonempty [of n] by (simp add: NumParts_0_iff)
  from a obtain c0 c1 c2 where code: "code = [c0, c1, c2]"
    by (metis length_0_conv length_Suc_conv numeral_3_eq_3)
  have "NewRelatedName n code = Some (\<lparr>rn_Name = n, relCode = (c0, c1, c2)\<rparr>, None)"
    using a np by (simp add: NewRelatedName_def reRelator_MatchString_iff at_def code)
  then show "\<exists>rn. NewRelatedName n code = Some (rn, None) \<and> rn_Name rn = n \<and>
      Relator rn = code \<and> String_RelatedName rn = Common n @ '' ('' @ code @ '')''"
    by (simp add: Relator_def String_RelatedName_def Common_def code)
qed

theorem NewRelatedName_checks_witness:
  "\<not> (length ''Aut'' = 3 \<and> list_all is_lower ''Aut'') \<and>
   NewRelatedName Sarah ''Aut'' = Some (zero_RelatedName, Some (BadRelatorCode Sarah ''Aut'')) \<and>
   \<not> (length ''author'' = 3 \<and> list_all is_lower ''author'') \<and>
   NewRelatedName zero_Name ''author'' =
     Some (zero_RelatedName, Some (BadRelatorCode zero_Name ''author'')) \<and>
   length ''aut'' = 3 \<and> list_all is_lower ''aut'' \<and>
   NewRelatedName zero_Name ''aut'' = Some (zero_RelatedName, Some (BadName ''aut'')) \<and>
   constructed Sarah \<and>
   NewRelatedName Sarah ''aut'' = Some (SarahAut, None) \<and> rn_Name SarahAut = Sarah \<and>
   Relator SarahAut = ''aut'' \<and> String_RelatedName SarahAut = ''Sarah A. Hoyt (aut)''"
proof -
  have c: "constructed Sarah"
    using NewName2_Sarah by (rule by_NewName2)
  have l: "\<not> (length ''Aut'' = 3 \<and> list_all is_lower ''Aut'')"
    "\<not> (length ''author'' = 3 \<and> list_all is_lower ''author'')"
    "length ''aut'' = 3" "list_all is_lower ''aut''"
    by (simp_all add: is_lower_def)
  have 1: "NewRelatedName Sarah ''Aut'' = Some (zero_RelatedName, Some (BadRelatorCode Sarah ''Aut''))"
    using NewRelatedName_checks [of "''Aut''" Sarah] l by blast
  have 2: "NewRelatedName zero_Name ''author'' =
     Some (zero_RelatedName, Some (BadRelatorCode zero_Name ''author''))"
    using NewRelatedName_checks [of "''author''" zero_Name] l by blast
  have 3: "NewRelatedName zero_Name ''aut'' = Some (zero_RelatedName, Some (BadName ''aut''))"
    using NewRelatedName_checks [of "''aut''" zero_Name] l by blast
  obtain rn where rn: "NewRelatedName Sarah ''aut'' = Some (rn, None)" "rn_Name rn = Sarah"
    "Relator rn = ''aut''" "String_RelatedName rn = Common Sarah @ '' ('' @ ''aut'' @ '')''"
    using NewRelatedName_checks [of "''aut''" Sarah] l c by blast
  have "NewRelatedName Sarah ''aut'' = Some (SarahAut, None)"
    by (simp add: NewRelatedName_def is_lower_def NumParts_def Sarah_def SarahAut_def at_def)
  with rn have "rn = SarahAut" by simp
  with rn have 4: "NewRelatedName Sarah ''aut'' = Some (SarahAut, None)" "rn_Name SarahAut = Sarah"
    "Relator SarahAut = ''aut''" "String_RelatedName SarahAut = ''Sarah A. Hoyt (aut)''"
    by (simp_all add: Common_def Sarah_def)
  show ?thesis using l c 1 2 3 4 by blast
qed

section \<open>Sixteen-bit offsets\<close>

lemma mod_exact_iff: "(k mod 65536 = k) \<longleftrightarrow> k < (65536::nat)"
  by (metis mod_less mod_less_divisor zero_less_numeral)

text \<open>
  Claim C10. The two offsets are stored as \<open>uint16\<close>: for every successful construction
  they are the intended byte offsets modulo 65536, hence equal to them exactly when these
  are below 65536; and below 64 KiB of stored text the ordering
  \<open>boSurname \<le> eoSurname \<le> len(text)\<close> holds. Beyond, it can fail: a forename of two bytes
  and a surname of 65535 give \<open>boSurname = 3\<close> and \<open>eoSurname = 2\<close>.
\<close>

theorem offsets_mod_65536:
  "(NewName1 text = Some (n1, None) \<longrightarrow>
      unat (boSurname n1) = 0 \<and>
      unat (eoSurname n1) = length (name_text n1) mod 65536 \<and>
      (unat (eoSurname n1) = length (name_text n1) \<longleftrightarrow> length (name_text n1) < 65536)) \<and>
   (NewName2 forename surname = Some (n2, None) \<and> CleanString forename = Some F \<longrightarrow>
      unat (boSurname n2) = (length F + 1) mod 65536 \<and>
      unat (eoSurname n2) = length (name_text n2) mod 65536 \<and>
      (unat (eoSurname n2) = length (name_text n2) \<longleftrightarrow> length (name_text n2) < 65536)) \<and>
   (NewName3 forename3 surname3 generation = Some (n3, None) \<and>
    CleanString forename3 = Some F3 \<and> CleanString surname3 = Some S3 \<longrightarrow>
      unat (boSurname n3) = (length F3 + 1) mod 65536 \<and>
      unat (eoSurname n3) = (length F3 + 1 + length S3) mod 65536 \<and>
      (unat (eoSurname n3) = length F3 + 1 + length S3 \<longleftrightarrow> length F3 + 1 + length S3 < 65536)) \<and>
   (constructed n \<and> length (name_text n) < 65536 \<longrightarrow>
      boSurname n \<le> eoSurname n \<and> unat (eoSurname n) \<le> length (name_text n)) \<and>
   NewName2 ''ab'' (replicate 65535 (CHR ''c'')) =
     Some (\<lparr>name_text = ''ab '' @ replicate 65535 (CHR ''c''), boSurname = 3, eoSurname = 2\<rparr>,
           None) \<and>
   \<not> boSurname \<lparr>name_text = ''ab '' @ replicate 65535 (CHR ''c''), boSurname = 3, eoSurname = 2\<rparr>
     \<le> eoSurname \<lparr>name_text = ''ab '' @ replicate 65535 (CHR ''c''), boSurname = 3,
                    eoSurname = 2\<rparr>"
proof (intro conjI impI)
  assume a: "NewName1 text = Some (n1, None)"
  note n = NewName1_SomeD(2) [OF a]
  show "unat (boSurname n1) = 0" by (simp add: n)
  show e: "unat (eoSurname n1) = length (name_text n1) mod 65536"
    by (simp add: n u16_mod)
  show "unat (eoSurname n1) = length (name_text n1) \<longleftrightarrow> length (name_text n1) < 65536"
    by (simp only: e mod_exact_iff)
next
  assume a: "NewName2 forename surname = Some (n2, None) \<and> CleanString forename = Some F"
  then have F: "F = normalize_spec forename" by (simp add: CleanString_eq)
  from a have n: "n2 = \<lparr>name_text = F @ '' '' @ normalize_spec surname,
      boSurname = of_nat (length F + 1),
      eoSurname = of_nat (length (F @ '' '' @ normalize_spec surname))\<rparr>"
    using NewName2_SomeD(3) [of forename surname n2] by (simp only: F)
  have b: "boSurname n2 = of_nat (length F + 1)" by (simp add: n)
  have e: "eoSurname n2 = of_nat (length (name_text n2))" by (simp add: n)
  show "unat (boSurname n2) = (length F + 1) mod 65536"
    by (simp only: b u16_mod)
  show e': "unat (eoSurname n2) = length (name_text n2) mod 65536"
    by (simp only: e u16_mod)
  show "unat (eoSurname n2) = length (name_text n2) \<longleftrightarrow> length (name_text n2) < 65536"
    by (simp only: e' mod_exact_iff)
next
  assume a: "NewName3 forename3 surname3 generation = Some (n3, None) \<and>
    CleanString forename3 = Some F3 \<and> CleanString surname3 = Some S3"
  then have F: "F3 = normalize_spec forename3" and S: "S3 = normalize_spec surname3"
    by (simp_all add: CleanString_eq)
  from a have n: "n3 = \<lparr>name_text = (F3 @ '' '' @ S3) @ '' '' @ normalize_spec generation,
      boSurname = of_nat (length F3 + 1),
      eoSurname = of_nat (length (F3 @ '' '' @ S3))\<rparr>"
    using NewName3_SomeD(4) [of forename3 surname3 generation n3] by (simp only: F S)
  have b: "boSurname n3 = of_nat (length F3 + 1)" by (simp add: n)
  have "length (F3 @ '' '' @ S3) = length F3 + 1 + length S3" by simp
  then have e: "eoSurname n3 = of_nat (length F3 + 1 + length S3)"
    by (simp only: n Name.simps)
  show "unat (boSurname n3) = (length F3 + 1) mod 65536"
    by (simp only: b u16_mod)
  show e': "unat (eoSurname n3) = (length F3 + 1 + length S3) mod 65536"
    by (simp only: e u16_mod)
  show "unat (eoSurname n3) = length F3 + 1 + length S3 \<longleftrightarrow> length F3 + 1 + length S3 < 65536"
    by (simp only: e' mod_exact_iff)
next
  assume "constructed n \<and> length (name_text n) < 65536"
  then show "boSurname n \<le> eoSurname n" "unat (eoSurname n) \<le> length (name_text n)"
    using constructed_offsets [of n] by simp_all
next
  have a: "\<not> is_space (CHR ''a'')" "\<not> is_space (CHR ''b'')" and c: "\<not> is_space (CHR ''c'')"
    by (simp_all add: is_space_def)
  have "normalized ''ab''"
    using a by (simp add: normalized_def text_invariant_def)
  then have 1: "CleanString ''ab'' = Some ''ab''"
    by (simp add: CleanString_eq normalize_spec_normalized)
  have 2: "CleanString (replicate 65535 (CHR ''c'')) = Some (replicate 65535 (CHR ''c''))"
    using c by (rule CleanString_replicate)
  show "NewName2 ''ab'' (replicate 65535 (CHR ''c'')) =
     Some (\<lparr>name_text = ''ab '' @ replicate 65535 (CHR ''c''), boSurname = 3, eoSurname = 2\<rparr>,
           None)"
    by (simp add: NewName2_def 1 2)
next
  show "\<not> boSurname \<lparr>name_text = ''ab '' @ replicate 65535 (CHR ''c''), boSurname = 3,
      eoSurname = 2\<rparr>
     \<le> eoSurname \<lparr>name_text = ''ab '' @ replicate 65535 (CHR ''c''), boSurname = 3,
                    eoSurname = 2\<rparr>"
    by (simp add: word_le_nat_alt)
qed

theorem offsets_mod_65536_witness:
  "NewName1 ''Baen Books'' = Some (Baen_Books, None) \<and>
   unat (eoSurname Baen_Books) = length (name_text Baen_Books) \<and>
   NewName2 ''Dave'' ''Freer'' = Some (Dave_F, None) \<and> CleanString ''Dave'' = Some ''Dave'' \<and>
   unat (boSurname Dave_F) = (length ''Dave'' + 1) mod 65536 \<and>
   unat (eoSurname Dave_F) = length (name_text Dave_F) \<and>
   NewName3 ''William H.  '' ''      Keith'' ''Jr.'' = Some (W_K_J, None) \<and>
   CleanString ''William H.  '' = Some ''William H.'' \<and>
   CleanString ''      Keith'' = Some ''Keith'' \<and>
   unat (boSurname W_K_J) = (length ''William H.'' + 1) mod 65536 \<and>
   unat (eoSurname W_K_J) = (length ''William H.'' + 1 + length ''Keith'') mod 65536 \<and>
   constructed W_K_J \<and> length (name_text W_K_J) < 65536 \<and>
   boSurname W_K_J \<le> eoSurname W_K_J \<and> unat (eoSurname W_K_J) \<le> length (name_text W_K_J)"
proof -
  have c: "CleanString ''Dave'' = Some ''Dave''"
    "CleanString ''William H.  '' = Some ''William H.''"
    "CleanString ''      Keith'' = Some ''Keith''"
    by (simp_all add: CleanString_def is_space_def at_def slice_def)
  have k: "constructed W_K_J"
    using NewName3_W_K_J by (rule by_NewName3)
  have l: "length (name_text Baen_Books) < 65536" "length (name_text Dave_F) < 65536"
    "length (name_text W_K_J) < 65536"
    by (simp_all add: Baen_Books_def Dave_F_def W_K_J_def)
  show ?thesis
    using offsets_mod_65536 [of "''Baen Books''" Baen_Books "''Dave''" "''Freer''" Dave_F
        "''Dave''" "''William H.  ''" "''      Keith''" "''Jr.''" W_K_J "''William H.''"
        "''Keith''" W_K_J]
      NewName1_Baen_Books NewName2_Dave_F NewName3_W_K_J c k l
    by blast
qed

end
